theory Spec2Isabelle
  imports Complex_Main
begin

section \<open>The data anomaly detection app (app.py)\<close>

text \<open>
  The program is one Streamlit script. It is run from the top on every user interaction and on
  every \<^verbatim>\<open>st.rerun()\<close>. What the script touches outside itself is made explicit here:
  \<^item> the presentation sink: each \<^verbatim>\<open>st.*\<close> call appends an event to the run's output;
  \<^item> the session state, the store of \<^verbatim>\<open>@st.cache_data\<close>, the table \<^verbatim>\<open>sent_alerts\<close> and
    the connections opened and closed: fields of a record \<open>world\<close> that every function
    takes and returns;
  \<^item> what the outside does in one run (whether the button was pressed, the clock, how the
    data source answers): a record \<open>run_input\<close>;
  \<^item> every \<^verbatim>\<open>raise\<close>: a value \<open>Inl e\<close> of a sum type.
\<close>

subsection \<open>Tables (pandas.DataFrame)\<close>

text \<open>
  A column has a dtype, which \<^verbatim>\<open>pd.DataFrame(data, columns=columns)\<close> infers from the
  fetched values. \<open>NumberSeries\<close> is a column of a numeric dtype (the values were Python ints
  or floats), \<open>None\<close> being NaN. \<open>ObjectSeries\<close> is a column of dtype object, \<open>None\<close> being
  a null: its values are kept as Python objects, which are texts, or numbers that are not
  ints or floats, such as the \<^verbatim>\<open>decimal.Decimal\<close> values the connector returns for a
  NUMBER column with a scale.
  \<open>index_len\<close> is the number of rows (\<^verbatim>\<open>len(df)\<close>).
\<close>

datatype obj = DecimalObj real | TextObj string

datatype series = NumberSeries "real option list" | ObjectSeries "obj option list"

record dataframe =
  index_len :: nat
  columns :: "(string \<times> series) list"

text \<open>The invariant of a table: every column has one value per row.\<close>

fun series_len :: "series \<Rightarrow> nat" where
  "series_len (NumberSeries vs) = length vs"
| "series_len (ObjectSeries vs) = length vs"

definition wf_dataframe :: "dataframe \<Rightarrow> bool" where
  "wf_dataframe df = list_all (\<lambda>c. series_len (snd c) = index_len df) (columns df)"

text \<open>\<^verbatim>\<open>df.empty\<close>: some axis has length 0.\<close>

definition df_empty :: "dataframe \<Rightarrow> bool" where
  "df_empty df = (index_len df = 0 \<or> columns df = [])"

text \<open>
  \<^verbatim>\<open>df.select_dtypes(include="number")\<close>: the columns of a numeric dtype, in order, with
  their values. The choice is by dtype: a column of dtype object is left out whatever its
  values are.
\<close>

fun number_column :: "string \<times> series \<Rightarrow> (string \<times> real option list) option" where
  "number_column (n, NumberSeries vs) = Some (n, vs)"
| "number_column (n, ObjectSeries vs) = None"

definition select_dtypes_number :: "dataframe \<Rightarrow> (string \<times> real option list) list" where
  "select_dtypes_number df = List.map_filter number_column (columns df)"

text \<open>
  \<^verbatim>\<open>Series.max()\<close> skips NaN and is NaN when nothing is left; \<^verbatim>\<open>DataFrame.max()\<close>, here on
  numeric columns, is the series of the columns' maxima.
\<close>

definition nan_max :: "real option list \<Rightarrow> real option" where
  "nan_max vs = (case List.map_filter (\<lambda>v. v) vs of [] \<Rightarrow> None | x # xs \<Rightarrow> Some (fold max xs x))"

definition df_max :: "(string \<times> real option list) list \<Rightarrow> real option list" where
  "df_max cols = map (\<lambda>c. nan_max (snd c)) cols"

text \<open>\<^verbatim>\<open>x > 6\<close> on a float: False when \<open>x\<close> is NaN.\<close>

fun nan_gt :: "real option \<Rightarrow> real \<Rightarrow> bool" where
  "nan_gt None t = False"
| "nan_gt (Some v) t = (t < v)"

text \<open>The values, NaN apart, of the columns of a numeric dtype.\<close>

fun series_numbers :: "series \<Rightarrow> real list" where
  "series_numbers (NumberSeries vs) = List.map_filter (\<lambda>v. v) vs"
| "series_numbers (ObjectSeries vs) = []"

definition numeric_values :: "dataframe \<Rightarrow> real list" where
  "numeric_values df = concat (map (\<lambda>c. series_numbers (snd c)) (columns df))"

subsection \<open>Exceptions and presentation events\<close>

datatype exn =
    DatabaseError string
  | IntegrityError string
  | UnboundLocalError string

text \<open>
  \<^verbatim>\<open>str(e)\<close>, which the \<^verbatim>\<open>except\<close> clause of the script displays. A database error carries
  the message of the connector; for UnboundLocalError the text is the interpreter's (as of
  Python 3.11), with the name between single quotes.
\<close>

fun exn_str :: "exn \<Rightarrow> string" where
  "exn_str (DatabaseError m) = m"
| "exn_str (IntegrityError m) = m"
| "exn_str (UnboundLocalError v) =
     ''cannot access local variable '' @ [CHR 0x27] @ v @ [CHR 0x27] @
     '' where it is not associated with a value''"

datatype event =
    Title string
  | Write string
  | WriteBool bool
  | Success string
  | Dataframe dataframe
  | Warning string
  | Info string
  | Error string
  | Sleep nat
  | Rerun

subsection \<open>The world\<close>

text \<open>
  \<open>auto_refresh\<close> is \<^verbatim>\<open>st.session_state\<close>: \<open>None\<close> while the key is absent.
  \<open>cache\<close> is the store of \<^verbatim>\<open>@st.cache_data\<close> for \<^verbatim>\<open>run_query\<close>, keyed on the argument.
  \<open>sent_alerts\<close> is the column \<^verbatim>\<open>alert_message\<close> of the ledger table, in insertion order.
  \<open>conns_opened\<close> and \<open>conns_closed\<close> count \<^verbatim>\<open>snowflake.connector.connect\<close> calls that
  returned and \<^verbatim>\<open>conn.close()\<close> calls; \<open>executed\<close> lists the queries \<^verbatim>\<open>run_query\<close> sent.
\<close>

record world =
  auto_refresh :: "bool option"
  cache :: "string \<rightharpoonup> dataframe"
  sent_alerts :: "string list"
  conns_opened :: nat
  conns_closed :: nat
  executed :: "string list"

text \<open>
  How the data source answers one \<^verbatim>\<open>run_query\<close>: the statement that raises, with the
  message, or the table \<^verbatim>\<open>pd.DataFrame(cursor.fetchall(), columns=...)\<close> builds.
\<close>

datatype source =
    ConnectRaises string
  | CursorRaises string
  | ExecuteRaises string
  | FetchallRaises string
  | Returns dataframe

record run_input =
  button :: bool
  now :: string
  data_source :: source
  alert_connect :: "string option"

subsection \<open>Connections\<close>

text \<open>
  \<^verbatim>\<open>get_snowflake_connection\<close>: \<open>Some m\<close> is a connect that raises with message \<open>m\<close>.
\<close>

definition get_snowflake_connection :: "string option \<Rightarrow> world \<Rightarrow> (exn + unit) \<times> world" where
  "get_snowflake_connection failure w =
     (case failure of
        Some m \<Rightarrow> (Inl (DatabaseError m), w)
      | None \<Rightarrow> (Inr (), w\<lparr>conns_opened := conns_opened w + 1\<rparr>))"

definition conn_close :: "world \<Rightarrow> world" where
  "conn_close w = w\<lparr>conns_closed := conns_closed w + 1\<rparr>"

definition open_connections :: "world \<Rightarrow> nat" where
  "open_connections w = conns_opened w - conns_closed w"

subsection \<open>The data source client and its cache\<close>

fun connect_answer :: "source \<Rightarrow> string option" where
  "connect_answer (ConnectRaises m) = Some m"
| "connect_answer (CursorRaises m) = None"
| "connect_answer (ExecuteRaises m) = None"
| "connect_answer (FetchallRaises m) = None"
| "connect_answer (Returns df) = None"

text \<open>
  The \<^verbatim>\<open>try\<close> block of \<^verbatim>\<open>run_query\<close>, on an open connection: its outcome, whether the name
  \<^verbatim>\<open>cursor\<close> was bound when the block was left, and the world. \<^verbatim>\<open>cursor = conn.cursor()\<close>
  is the block's first statement, so a raise there leaves the name unbound. (With a connect
  that raises the block is not entered; the first equation only makes the function total.)
\<close>

fun try_query :: "source \<Rightarrow> string \<Rightarrow> world \<Rightarrow> (exn + dataframe) \<times> bool \<times> world" where
  "try_query (ConnectRaises m) query w = (Inl (DatabaseError m), False, w)"
| "try_query (CursorRaises m) query w = (Inl (DatabaseError m), False, w)"
| "try_query (ExecuteRaises m) query w =
     (Inl (DatabaseError m), True, w\<lparr>executed := executed w @ [query]\<rparr>)"
| "try_query (FetchallRaises m) query w =
     (Inl (DatabaseError m), True, w\<lparr>executed := executed w @ [query]\<rparr>)"
| "try_query (Returns df) query w =
     (Inr df, True, w\<lparr>executed := executed w @ [query]\<rparr>)"

text \<open>
  The \<^verbatim>\<open>finally\<close> block: \<^verbatim>\<open>cursor.close()\<close>, then \<^verbatim>\<open>conn.close()\<close>. With \<^verbatim>\<open>cursor\<close> unbound
  the first statement raises UnboundLocalError, which replaces the outcome of the
  \<^verbatim>\<open>try\<close> block, and \<^verbatim>\<open>conn.close()\<close> is not reached.
\<close>

definition finally_close :: "(exn + dataframe) \<times> bool \<times> world \<Rightarrow> (exn + dataframe) \<times> world" where
  "finally_close t =
     (case t of (r, cursor_bound, w) \<Rightarrow>
        if cursor_bound then (r, conn_close w)
        else (Inl (UnboundLocalError ''cursor''), w))"

text \<open>The function under the decorator. The connect is before the \<^verbatim>\<open>try\<close>.\<close>

definition run_query_body :: "source \<Rightarrow> string \<Rightarrow> world \<Rightarrow> (exn + dataframe) \<times> world" where
  "run_query_body src query w =
     (case get_snowflake_connection (connect_answer src) w of
        (Inl e, w0) \<Rightarrow> (Inl e, w0)
      | (Inr conn, w0) \<Rightarrow> finally_close (try_query src query w0))"

text \<open>
  \<^verbatim>\<open>@st.cache_data\<close>: the value stored for the argument is returned without running the
  body; otherwise the body runs and its return value is stored. A raise stores nothing.
\<close>

definition run_query :: "source \<Rightarrow> string \<Rightarrow> world \<Rightarrow> (exn + dataframe) \<times> world" where
  "run_query src query w =
     (case cache w query of
        Some df \<Rightarrow> (Inr df, w)
      | None \<Rightarrow>
         (case run_query_body src query w of
            (Inl e, w1) \<Rightarrow> (Inl e, w1)
          | (Inr df, w1) \<Rightarrow> (Inr df, w1\<lparr>cache := (cache w1)(query \<mapsto> df)\<rparr>)))"

subsection \<open>Validation (great_expectations)\<close>

text \<open>
  The script gets its context anew in every run (line 11), so the names that
  \<^verbatim>\<open>validate_data\<close> registers in it are free each time, and the function is a function of
  the table alone.
  The suite of \<^verbatim>\<open>validate_data\<close> holds one expectation. The library computes the
  expectation's metrics on the batch; a column that the batch does not have under any
  letter case makes the metric raise, and the validator, which catches exceptions unless told otherwise, records the
  expectation as failed with the exception attached. With the metrics in hand,
  \<^verbatim>\<open>ExpectColumnValuesToNotBeNull\<close> succeeds on a batch of no rows and otherwise when
  no value of the column is null (NaN is null).
\<close>

datatype expectation = ExpectColumnValuesToNotBeNull string

text \<open>The column an expectation is about.\<close>

fun column :: "expectation \<Rightarrow> string" where
  "column (ExpectColumnValuesToNotBeNull c) = c"

record expectation_result =
  expectation_config :: expectation
  expectation_success :: bool
  raised_exception :: bool

record validation_results =
  success :: bool
  results :: "expectation_result list"

fun null_count :: "series \<Rightarrow> nat" where
  "null_count (NumberSeries vs) = length (filter (\<lambda>v. v = None) vs)"
| "null_count (ObjectSeries vs) = length (filter (\<lambda>v. v = None) vs)"

text \<open>
  The library finds the expectation's column among the batch's columns by comparing the
  names with their case folded (\<^verbatim>\<open>str.casefold\<close>, here on the letters A to Z), and takes the
  first column that matches.
\<close>

definition casefold_char :: "char \<Rightarrow> char" where
  "casefold_char c =
     (case map_of (zip ''ABCDEFGHIJKLMNOPQRSTUVWXYZ'' ''abcdefghijklmnopqrstuvwxyz'') c of
        None \<Rightarrow> c
      | Some l \<Rightarrow> l)"

definition casefold :: "string \<Rightarrow> string" where
  "casefold s = map casefold_char s"

fun resolve_column :: "string \<Rightarrow> (string \<times> series) list \<Rightarrow> series option" where
  "resolve_column c [] = None"
| "resolve_column c ((n, s) # cols) =
     (if casefold c = casefold n then Some s else resolve_column c cols)"

text \<open>The metrics: the row count and the number of nulls in the column.\<close>

definition nonnull_metrics :: "dataframe \<Rightarrow> string \<Rightarrow> string + nat \<times> nat" where
  "nonnull_metrics df c =
     (case resolve_column c (columns df) of
        None \<Rightarrow> Inl (''The column '' @ c @ '' in BatchData does not exist.'')
      | Some s \<Rightarrow> Inr (index_len df, null_count s))"

fun validate_expectation :: "dataframe \<Rightarrow> expectation \<Rightarrow> expectation_result" where
  "validate_expectation df (ExpectColumnValuesToNotBeNull c) =
     (case nonnull_metrics df c of
        Inl m \<Rightarrow>
          \<lparr>expectation_config = ExpectColumnValuesToNotBeNull c,
           expectation_success = False, raised_exception = True\<rparr>
      | Inr (total_count, unexpected_count) \<Rightarrow>
          \<lparr>expectation_config = ExpectColumnValuesToNotBeNull c,
           expectation_success = (total_count = 0 \<or> unexpected_count = 0),
           raised_exception = False\<rparr>)"

text \<open>\<^verbatim>\<open>batch.validate(suite)\<close>: the expectations in order; success is their conjunction.\<close>

definition batch_validate :: "dataframe \<Rightarrow> expectation list \<Rightarrow> validation_results" where
  "batch_validate df suite =
     (let rs = map (validate_expectation df) suite
      in \<lparr>success = list_all expectation_success rs, results = rs\<rparr>)"

definition validate_data :: "dataframe \<Rightarrow> exn + validation_results" where
  "validate_data df = Inr (batch_validate df [ExpectColumnValuesToNotBeNull ''EMPLOYEE_ID''])"

subsection \<open>The alert ledger\<close>

text \<open>\<^verbatim>\<open>SELECT 1 FROM sent_alerts WHERE alert_message = %s\<close>, then \<^verbatim>\<open>fetchone() is not None\<close>.\<close>

definition is_alert_sent :: "string list \<Rightarrow> string \<Rightarrow> bool" where
  "is_alert_sent table message = (message \<in> set table)"

text \<open>
  The \<^verbatim>\<open>INSERT\<close> on a table whose column is unique: a message already in the table raises
  IntegrityError.
\<close>

definition insert_alert :: "string list \<Rightarrow> string \<Rightarrow> exn + string list" where
  "insert_alert table message =
     (if message \<in> set table then Inl (IntegrityError message) else Inr (table @ [message]))"

text \<open>
  \<^verbatim>\<open>log_alert\<close>: BEGIN, INSERT, COMMIT; on IntegrityError ROLLBACK and return normally;
  any other exception goes on.
\<close>

definition log_alert :: "string list \<Rightarrow> string \<Rightarrow> exn + string list" where
  "log_alert table message =
     (case insert_alert table message of
        Inr table' \<Rightarrow> Inr table'
      | Inl (IntegrityError m) \<Rightarrow> Inr table
      | Inl e \<Rightarrow> Inl e)"

definition send_alert :: "string option \<Rightarrow> string \<Rightarrow> world \<Rightarrow> (exn + unit) \<times> event list \<times> world" where
  "send_alert connect message w =
     (case get_snowflake_connection connect w of
        (Inl e, w0) \<Rightarrow> (Inl e, [], w0)
      | (Inr conn, w0) \<Rightarrow>
          if \<not> is_alert_sent (sent_alerts w0) message then
            (case log_alert (sent_alerts w0) message of
               Inl e \<Rightarrow> (Inl e, [], w0)
             | Inr table' \<Rightarrow>
                 (Inr (), [Warning (''Alert: '' @ message)],
                  conn_close (w0\<lparr>sent_alerts := table'\<rparr>)))
          else (Inr (), [Info ''Alert already sent for this issue.''], conn_close w0))"

subsection \<open>The anomaly check\<close>

definition alert_text :: string where
  "alert_text = ''One or more numeric columns have values greater than 6.''"

text \<open>
  Lines 127 to 131: nothing on an empty table; otherwise the maximum of the numeric columns'
  maxima is compared with 6, and \<^verbatim>\<open>send_alert\<close> is called with the fixed text or
  "No anomalies detected." is written.
\<close>

definition anomaly_check :: "string option \<Rightarrow> dataframe \<Rightarrow> world \<Rightarrow> (exn + unit) \<times> event list \<times> world" where
  "anomaly_check connect results_df w =
     (if \<not> df_empty results_df then
        (if nan_gt (nan_max (df_max (select_dtypes_number results_df))) 6
         then send_alert connect alert_text w
         else (Inr (), [Write ''No anomalies detected.''], w))
      else (Inr (), [], w))"

subsection \<open>The script\<close>

definition query :: string where
  \<open>query = ''SELECT * FROM "EMPLOYEE"."PUBLIC"."EMPLOYEE" LIMIT 10;''\<close>

fun show_nat :: "nat \<Rightarrow> string" where
  "show_nat n =
     (if n < 10 then [''0123456789'' ! n]
      else show_nat (n div 10) @ [''0123456789'' ! (n mod 10)])"

declare show_nat.simps [simp del]

text \<open>Lines 96 to 101: the key is set to False when absent; a pressed button flips it.\<close>

definition init_session :: "world \<Rightarrow> world" where
  "init_session w =
     (case auto_refresh w of None \<Rightarrow> w\<lparr>auto_refresh := Some False\<rparr> | Some b \<Rightarrow> w)"

definition toggle :: "bool \<Rightarrow> world \<Rightarrow> world" where
  "toggle pressed w =
     (if pressed then w\<lparr>auto_refresh := map_option Not (auto_refresh w)\<rparr> else w)"

text \<open>The world in which line 104 and the branch of line 112 read the state in a run.\<close>

definition session_update :: "run_input \<Rightarrow> world \<Rightarrow> world" where
  "session_update i w = toggle (button i) (init_session w)"

definition refresh_active :: "run_input \<Rightarrow> world \<Rightarrow> bool" where
  "refresh_active i w = (auto_refresh (session_update i w) = Some True)"

definition display_time :: "run_input \<Rightarrow> event" where
  "display_time i = Write (''Current time: '' @ now i)"

text \<open>
  The \<^verbatim>\<open>try\<close> block of lines 115 to 131: its outcome, what it displayed before leaving, and
  the world.
\<close>

definition try_block :: "run_input \<Rightarrow> world \<Rightarrow> (exn + unit) \<times> event list \<times> world" where
  "try_block i w =
     (case run_query (data_source i) query w of
        (Inl e, w1) \<Rightarrow> (Inl e, [], w1)
      | (Inr results_df, w1) \<Rightarrow>
          (let shown =
                 [Success ''Query executed successfully!'',
                  Write (''Results ('' @ show_nat (index_len results_df) @ '' rows):''),
                  Dataframe results_df]
           in case validate_data results_df of
                Inl e \<Rightarrow> (Inl e, shown, w1)
              | Inr validation_results \<Rightarrow>
                  (case anomaly_check (alert_connect i) results_df w1 of
                     (r, evs, w2) \<Rightarrow>
                       (r, shown @ [WriteBool (success validation_results)] @ evs, w2))))"

text \<open>
  One run of the script. In the active branch the \<^verbatim>\<open>except Exception\<close> clause displays the
  error, and in both cases the run goes on to \<^verbatim>\<open>time.sleep(10)\<close> and \<^verbatim>\<open>st.rerun()\<close>.
\<close>

definition script :: "run_input \<Rightarrow> world \<Rightarrow> event list \<times> world" where
  "script i w =
     (let w1 = session_update i w;
          on = (auto_refresh w1 = Some True);
          header =
            [Title ''Data Anomaly Detection'',
             Write (''Auto-refresh is '' @ (if on then ''ON'' else ''OFF''))]
      in if on then
           (case try_block i w1 of
              (Inl e, evs, w2) \<Rightarrow>
                (header @ [display_time i] @ evs
                   @ [Error (''Error running query: '' @ exn_str e), Sleep 10, Rerun], w2)
            | (Inr u, evs, w2) \<Rightarrow>
                (header @ [display_time i] @ evs @ [Sleep 10, Rerun], w2))
         else (header @ [display_time i], w1))"

text \<open>
  The refresh loop: the script run once per element of a list of inputs, the world handed
  from each run to the next. The result is the list of the runs' displays and the last world.
\<close>

fun refresh_loop :: "run_input list \<Rightarrow> world \<Rightarrow> event list list \<times> world" where
  "refresh_loop [] w = ([], w)"
| "refresh_loop (i # is) w =
     (case script i w of
        (evs, w1) \<Rightarrow> (case refresh_loop is w1 of (rest, w2) \<Rightarrow> (evs # rest, w2)))"

fun is_warning :: "event \<Rightarrow> bool" where
  "is_warning (Warning m) = True"
| "is_warning e = False"

subsection \<open>Several callers of \<^verbatim>\<open>send_alert\<close>\<close>

text \<open>
  \<^verbatim>\<open>send_alert\<close> cut at its statements. A caller is at one of them; a step runs that
  statement against the shared world and moves the caller on. The whole of
  \<^verbatim>\<open>log_alert\<close>, a transaction, is one step.
\<close>

datatype pc = AtConnect | AtCheck | AtLog | AtWarning | AtInfo | AtClose | Finished | Raised exn

fun send_alert_step :: "string option \<Rightarrow> string \<Rightarrow> pc \<Rightarrow> world \<Rightarrow> pc \<times> event list \<times> world" where
  "send_alert_step connect message AtConnect w =
     (case get_snowflake_connection connect w of
        (Inl e, w0) \<Rightarrow> (Raised e, [], w0)
      | (Inr conn, w0) \<Rightarrow> (AtCheck, [], w0))"
| "send_alert_step connect message AtCheck w =
     (if \<not> is_alert_sent (sent_alerts w) message then (AtLog, [], w) else (AtInfo, [], w))"
| "send_alert_step connect message AtLog w =
     (case log_alert (sent_alerts w) message of
        Inl e \<Rightarrow> (Raised e, [], w)
      | Inr table' \<Rightarrow> (AtWarning, [], w\<lparr>sent_alerts := table'\<rparr>))"
| "send_alert_step connect message AtWarning w =
     (AtClose, [Warning (''Alert: '' @ message)], w)"
| "send_alert_step connect message AtInfo w =
     (AtClose, [Info ''Alert already sent for this issue.''], w)"
| "send_alert_step connect message AtClose w = (Finished, [], conn_close w)"
| "send_alert_step connect message Finished w = (Finished, [], w)"
| "send_alert_step connect message (Raised e) w = (Raised e, [], w)"

text \<open>
  Callers run interleaved: the schedule names, step by step, the caller that moves. Each
  caller is its place in \<^verbatim>\<open>send_alert\<close> and what it has displayed.
\<close>

fun interleave :: "string \<Rightarrow> nat list \<Rightarrow> (pc \<times> event list) list \<times> world \<Rightarrow> (pc \<times> event list) list \<times> world" where
  "interleave message [] s = s"
| "interleave message (k # ks) (callers, w) =
     (if k < length callers then
        (case send_alert_step None message (fst (callers ! k)) w of
           (p, evs, w1) \<Rightarrow>
             interleave message ks (callers[k := (p, snd (callers ! k) @ evs)], w1))
      else interleave message ks (callers, w))"

subsection \<open>A first world\<close>

definition fresh_world :: world where
  "fresh_world =
     \<lparr>auto_refresh = None, cache = Map.empty, sent_alerts = [],
      conns_opened = 0, conns_closed = 0, executed = []\<rparr>"

subsection \<open>Example inputs\<close>

text \<open>
  A table with the one numeric column \<^verbatim>\<open>EMPLOYEE_ID\<close>; a run started by pressing the
  button; a run started by \<^verbatim>\<open>st.rerun()\<close>.
\<close>

definition employees :: "real option list \<Rightarrow> dataframe" where
  "employees ids = \<lparr>index_len = length ids, columns = [(''EMPLOYEE_ID'', NumberSeries ids)]\<rparr>"

definition press :: "source \<Rightarrow> run_input" where
  "press src =
     \<lparr>button = True, now = ''2024-01-01 00:00:00'', data_source = src, alert_connect = None\<rparr>"

definition tick :: "source \<Rightarrow> run_input" where
  "tick src =
     \<lparr>button = False, now = ''2024-01-01 00:00:10'', data_source = src, alert_connect = None\<rparr>"

definition names_only :: dataframe where
  "names_only = \<lparr>index_len = 1, columns = [(''NAME'', ObjectSeries [Some (TextObj ''Ann'')])]\<rparr>"

definition no_rows :: "string \<Rightarrow> dataframe" where
  "no_rows c = \<lparr>index_len = 0, columns = [(c, ObjectSeries [])]\<rparr>"

text \<open>The ledger as this program fills it: empty, or the one record of the fixed text.\<close>

definition ledger_ok :: "string list \<Rightarrow> bool" where
  "ledger_ok table = (table = [] \<or> table = [alert_text])"

section \<open>Properties\<close>

subsection \<open>The alert ledger, one caller\<close>

lemma send_alert_unsent:
  "m \<notin> set (sent_alerts w) \<Longrightarrow>
   send_alert None m w =
     (Inr (), [Warning (''Alert: '' @ m)],
      conn_close (w\<lparr>conns_opened := conns_opened w + 1, sent_alerts := sent_alerts w @ [m]\<rparr>))"
  by (simp add: send_alert_def get_snowflake_connection_def is_alert_sent_def log_alert_def
      insert_alert_def)

lemma send_alert_sent:
  "m \<in> set (sent_alerts w) \<Longrightarrow>
   send_alert None m w =
     (Inr (), [Info ''Alert already sent for this issue.''],
      conn_close (w\<lparr>conns_opened := conns_opened w + 1\<rparr>))"
  by (simp add: send_alert_def get_snowflake_connection_def is_alert_sent_def)

text \<open>
  C1. Two calls of \<^verbatim>\<open>send_alert\<close> in sequence with the same message \<open>m\<close>, on a ledger that
  has no record of \<open>m\<close> and with both connects succeeding: the first call returns normally
  and displays the warning "Alert: m" (sent), the second returns normally and displays the
  notice "Alert already sent for this issue." (not sent), and afterwards exactly one record
  of the ledger has the text \<open>m\<close>.
\<close>

theorem send_alert_twice:
  "m \<notin> set (sent_alerts w) \<Longrightarrow>
   (case send_alert None m w of
      (r1, shown1, w1) \<Rightarrow>
        (case send_alert None m w1 of
           (r2, shown2, w2) \<Rightarrow>
             r1 = Inr () \<and> shown1 = [Warning (''Alert: '' @ m)] \<and>
             r2 = Inr () \<and> shown2 = [Info ''Alert already sent for this issue.''] \<and>
             length (filter (\<lambda>r. r = m) (sent_alerts w2)) = 1))"
  by (auto simp add: send_alert_unsent send_alert_sent conn_close_def filter_empty_conv)

theorem send_alert_twice_witness:
  "alert_text \<notin> set (sent_alerts fresh_world) \<and>
   (case send_alert None alert_text fresh_world of
      (r1, shown1, w1) \<Rightarrow>
        (case send_alert None alert_text w1 of
           (r2, shown2, w2) \<Rightarrow>
             r1 = Inr () \<and> shown1 = [Warning (''Alert: '' @ alert_text)] \<and>
             r2 = Inr () \<and> shown2 = [Info ''Alert already sent for this issue.''] \<and>
             length (filter (\<lambda>r. r = alert_text) (sent_alerts w2)) = 1))"
proof -
  have h: "alert_text \<notin> set (sent_alerts fresh_world)"
    by (simp add: fresh_world_def)
  show ?thesis
    by (rule conjI [OF h send_alert_twice [OF h]])
qed

subsection \<open>What a run leaves alone\<close>

lemma session_update_frame:
  "cache (session_update i w) = cache w \<and> executed (session_update i w) = executed w \<and>
   sent_alerts (session_update i w) = sent_alerts w \<and>
   conns_opened (session_update i w) = conns_opened w \<and>
   conns_closed (session_update i w) = conns_closed w"
  by (simp add: session_update_def toggle_def init_session_def split: option.splits)

lemma send_alert_frame:
  "send_alert c m w = (r, evs, w1) \<Longrightarrow>
   cache w1 = cache w \<and> executed w1 = executed w \<and> auto_refresh w1 = auto_refresh w"
  by (auto simp add: send_alert_def get_snowflake_connection_def conn_close_def
      split: option.splits if_splits sum.splits)

lemma anomaly_check_frame:
  "anomaly_check c df w = (r, evs, w1) \<Longrightarrow>
   cache w1 = cache w \<and> executed w1 = executed w \<and> auto_refresh w1 = auto_refresh w"
  by (auto simp add: anomaly_check_def dest: send_alert_frame split: if_splits)

lemma run_query_hit: "cache w q = Some df \<Longrightarrow> run_query src q w = (Inr df, w)"
  by (simp add: run_query_def)

lemma try_block_hit:
  assumes "cache w query = Some df" and "try_block i w = (r, evs, w1)"
  shows "cache w1 = cache w \<and> executed w1 = executed w \<and> auto_refresh w1 = auto_refresh w
         \<and> Dataframe df \<in> set evs"
proof -
  obtain r' evs' w' where a: "anomaly_check (alert_connect i) df w = (r', evs', w')"
    by (cases "anomaly_check (alert_connect i) df w") auto
  from anomaly_check_frame [OF a] a assms show ?thesis
    by (auto simp add: try_block_def run_query_hit validate_data_def)
qed

lemma script_idle:
  "\<not> refresh_active i w \<Longrightarrow>
   script i w =
     ([Title ''Data Anomaly Detection'', Write ''Auto-refresh is OFF'', display_time i],
      session_update i w)"
  by (simp add: script_def refresh_active_def Let_def)

lemma script_active:
  "refresh_active i w \<Longrightarrow> try_block i (session_update i w) = (r, evs, w2) \<Longrightarrow>
   script i w =
     ([Title ''Data Anomaly Detection'', Write ''Auto-refresh is ON'', display_time i] @ evs @
      (case r of Inl e \<Rightarrow> [Error (''Error running query: '' @ exn_str e)] | Inr u \<Rightarrow> []) @
      [Sleep 10, Rerun], w2)"
  by (cases r) (simp_all add: script_def refresh_active_def Let_def)

lemma script_hit:
  assumes "cache w query = Some df" and "script i w = (evs, w1)"
  shows "cache w1 = cache w \<and> executed w1 = executed w \<and> (Rerun \<in> set evs \<longrightarrow> Dataframe df \<in> set evs)"
proof (cases "refresh_active i w")
  case False
  from script_idle [OF False] assms(2) show ?thesis
    by (auto simp add: session_update_frame display_time_def)
next
  case True
  let ?w = "session_update i w"
  have c: "cache ?w query = Some df" using assms(1) by (simp add: session_update_frame)
  obtain r evs' w' where t: "try_block i ?w = (r, evs', w')"
    by (cases "try_block i ?w") auto
  from try_block_hit [OF c t] script_active [OF True t] assms(2) show ?thesis
    by (auto simp add: session_update_frame)
qed

lemma refresh_loop_hit:
  "cache w query = Some df \<Longrightarrow> refresh_loop is w = (shown, w') \<Longrightarrow>
   cache w' = cache w \<and> executed w' = executed w \<and>
   (\<forall>evs \<in> set shown. Rerun \<in> set evs \<longrightarrow> Dataframe df \<in> set evs)"
proof (induction "is" arbitrary: w shown w')
  case Nil
  then show ?case by simp
next
  case (Cons i "is")
  obtain evs w1 where s: "script i w = (evs, w1)" by (cases "script i w") auto
  obtain rest w2 where l: "refresh_loop is w1 = (rest, w2)" by (cases "refresh_loop is w1") auto
  from script_hit [OF Cons.prems(1) s] have c1: "cache w1 query = Some df"
    using Cons.prems(1) by simp
  from Cons.IH [OF c1 l] script_hit [OF Cons.prems(1) s] Cons.prems(2) s l
  show ?case by auto
qed

lemmas eval_defs = script_def session_update_def toggle_def init_session_def try_block_def
  run_query_def run_query_body_def get_snowflake_connection_def finally_close_def conn_close_def
  validate_data_def batch_validate_def nonnull_metrics_def anomaly_check_def df_empty_def
  select_dtypes_number_def df_max_def nan_max_def List.map_filter_def display_time_def
  send_alert_def is_alert_sent_def log_alert_def insert_alert_def
  fresh_world_def press_def tick_def employees_def show_nat.simps Let_def

subsection \<open>The cache in the refresh loop\<close>

lemma run_query_miss_returns:
  "cache w q = None \<Longrightarrow>
   run_query (Returns df) q w =
     (Inr df, conn_close (w\<lparr>conns_opened := conns_opened w + 1, executed := executed w @ [q]\<rparr>)
                \<lparr>cache := (cache w)(q \<mapsto> df)\<rparr>)"
  by (simp add: run_query_def run_query_body_def get_snowflake_connection_def finally_close_def
      conn_close_def)

lemma try_block_first_fetch:
  assumes "cache w query = None" and "data_source i = Returns df" and "try_block i w = (r, evs, w1)"
  shows "cache w1 query = Some df \<and> executed w1 = executed w @ [query] \<and> Dataframe df \<in> set evs"
proof -
  let ?w = "conn_close (w\<lparr>conns_opened := conns_opened w + 1, executed := executed w @ [query]\<rparr>)
                \<lparr>cache := (cache w)(query \<mapsto> df)\<rparr>"
  obtain r' evs' w' where a: "anomaly_check (alert_connect i) df ?w = (r', evs', w')"
    by (cases "anomaly_check (alert_connect i) df ?w") auto
  from anomaly_check_frame [OF a] a assms show ?thesis
    by (auto simp add: try_block_def run_query_miss_returns validate_data_def conn_close_def)
qed

text \<open>
  C2, as the code has it. The fetch of the refresh loop goes through the cache, keyed on the
  query string alone: the active cycle that first fetches with success sends the query once,
  and in every run after it, whatever the data source holds by then, no query is sent and
  each active cycle displays the table of that first fetch.
\<close>

theorem refresh_loop_fetch_memoized:
  "cache w query = None \<Longrightarrow> refresh_active i w \<Longrightarrow> data_source i = Returns df \<Longrightarrow>
   (case script i w of
      (evs, w1) \<Rightarrow>
        Dataframe df \<in> set evs \<and> executed w1 = executed w @ [query] \<and>
        (case refresh_loop rest w1 of
           (shown, w') \<Rightarrow>
             executed w' = executed w1 \<and>
             (\<forall>evs' \<in> set shown. Rerun \<in> set evs' \<longrightarrow> Dataframe df \<in> set evs')))"
proof -
  assume c: "cache w query = None" and a: "refresh_active i w" and d: "data_source i = Returns df"
  let ?w = "session_update i w"
  have c': "cache ?w query = None" using c by (simp add: session_update_frame)
  obtain r evs w1 where t: "try_block i ?w = (r, evs, w1)"
    by (cases "try_block i ?w") auto
  note f = try_block_first_fetch [OF c' d t]
  obtain shown w' where l: "refresh_loop rest w1 = (shown, w')"
    by (cases "refresh_loop rest w1") auto
  from f have h: "cache w1 query = Some df" by simp
  from refresh_loop_hit [OF h l] f l show ?thesis
    by (simp add: script_active [OF a t] session_update_frame)
qed

theorem refresh_loop_fetch_memoized_witness:
  "cache fresh_world query = None \<and> refresh_active (press (Returns (employees [Some 1]))) fresh_world \<and>
   data_source (press (Returns (employees [Some 1]))) = Returns (employees [Some 1]) \<and>
   (case script (press (Returns (employees [Some 1]))) fresh_world of
      (evs, w1) \<Rightarrow>
        Dataframe (employees [Some 1]) \<in> set evs \<and> executed w1 = executed fresh_world @ [query] \<and>
        (case refresh_loop [tick (Returns (employees [Some 2]))] w1 of
           (shown, w') \<Rightarrow>
             executed w' = executed w1 \<and>
             (\<forall>evs' \<in> set shown. Rerun \<in> set evs' \<longrightarrow> Dataframe (employees [Some 1]) \<in> set evs')))"
proof -
  have h1: "cache fresh_world query = None" by (simp add: fresh_world_def)
  have h2: "refresh_active (press (Returns (employees [Some 1]))) fresh_world"
    by (simp add: refresh_active_def session_update_def toggle_def init_session_def press_def
        fresh_world_def)
  have h3: "data_source (press (Returns (employees [Some 1]))) = Returns (employees [Some 1])"
    by (simp add: press_def)
  show ?thesis
    by (intro conjI h1 h2 h3
        refresh_loop_fetch_memoized [OF h1 h2 h3, where rest = "[tick (Returns (employees [Some 2]))]"])
qed

text \<open>
  C2, as stated, fails: in the second of two active cycles the data source holds another
  table, yet the cycle displays the first cycle's table and not the new one, and over both
  cycles one connection was opened and the query was sent once.
\<close>

theorem refresh_loop_stale_counterexample:
  "executed (snd (refresh_loop
       [press (Returns (employees [Some 1])), tick (Returns (employees [Some 2]))] fresh_world))
     = [query] \<and>
   conns_opened (snd (refresh_loop
       [press (Returns (employees [Some 1])), tick (Returns (employees [Some 2]))] fresh_world))
     = 1 \<and>
   take 6 (fst (refresh_loop
       [press (Returns (employees [Some 1])), tick (Returns (employees [Some 2]))] fresh_world) ! 1)
     = [Title ''Data Anomaly Detection'', Write ''Auto-refresh is ON'',
        Write ''Current time: 2024-01-01 00:00:10'',
        Success ''Query executed successfully!'', Write ''Results (1 rows):'',
        Dataframe (employees [Some 1])] \<and>
   Dataframe (employees [Some 2]) \<notin> set (fst (refresh_loop
       [press (Returns (employees [Some 1])), tick (Returns (employees [Some 2]))] fresh_world) ! 1)"
  by (simp add: eval_defs)

subsection \<open>A cycle whose fetch fails; an idle run\<close>

lemma run_query_body_frame:
  "run_query_body src q w = (r, w1) \<Longrightarrow>
   auto_refresh w1 = auto_refresh w \<and> sent_alerts w1 = sent_alerts w \<and> cache w1 = cache w"
  by (cases src)
    (auto simp add: run_query_body_def get_snowflake_connection_def finally_close_def
      conn_close_def)

lemma run_query_frame:
  "run_query src q w = (r, w1) \<Longrightarrow>
   auto_refresh w1 = auto_refresh w \<and> sent_alerts w1 = sent_alerts w"
  by (auto simp add: run_query_def dest: run_query_body_frame
      split: option.splits prod.splits sum.splits)

lemma run_query_raises_frame:
  "run_query src q w = (Inl e, w1) \<Longrightarrow> cache w1 = cache w"
  by (auto simp add: run_query_def dest: run_query_body_frame
      split: option.splits prod.splits sum.splits)

lemma try_block_auto_refresh:
  assumes "try_block i w = (r, evs, w1)"
  shows "auto_refresh w1 = auto_refresh w"
proof -
  obtain rq wq where q: "run_query (data_source i) query w = (rq, wq)"
    by (cases "run_query (data_source i) query w") auto
  show ?thesis
  proof (cases rq)
    case (Inl e)
    with q assms run_query_frame [OF q] show ?thesis by (simp add: try_block_def)
  next
    case (Inr df)
    obtain ra evsa wa where a: "anomaly_check (alert_connect i) df wq = (ra, evsa, wa)"
      by (cases "anomaly_check (alert_connect i) df wq") auto
    from Inr q assms a anomaly_check_frame [OF a] run_query_frame [OF q] show ?thesis
      by (simp add: try_block_def validate_data_def)
  qed
qed

lemma try_block_fetch_raises:
  assumes "run_query (data_source i) query w = (Inl e, w1)"
  shows "try_block i w = (Inl e, [], w1)"
  using assms by (simp add: try_block_def)

lemma refresh_active_next:
  "auto_refresh w = Some True \<Longrightarrow> \<not> button i \<Longrightarrow> refresh_active i w"
  by (simp add: refresh_active_def session_update_def toggle_def init_session_def)

text \<open>
  C8. An active run always ends with the sleep of 10 seconds and the rerun, and leaves the
  session active, so that the rerun is an active cycle again. When the fetch of the run
  raises \<open>e\<close>, the run displays the error "Error running query: e" and nothing of
  validation, anomaly check or alert, and the ledger and the cache are as before.
\<close>

theorem fetch_failure_cycle:
  "refresh_active i w \<Longrightarrow>
   (case script i w of
      (evs, w1) \<Rightarrow>
        (\<exists>shown. evs = shown @ [Sleep 10, Rerun]) \<and>
        (\<forall>j. \<not> button j \<longrightarrow> refresh_active j w1) \<and>
        (\<forall>e. fst (run_query (data_source i) query (session_update i w)) = Inl e \<longrightarrow>
           evs = [Title ''Data Anomaly Detection'', Write ''Auto-refresh is ON'', display_time i,
                  Error (''Error running query: '' @ exn_str e), Sleep 10, Rerun] \<and>
           sent_alerts w1 = sent_alerts w \<and> cache w1 = cache w))"
proof -
  assume a: "refresh_active i w"
  let ?w = "session_update i w"
  obtain r evs w1 where t: "try_block i ?w = (r, evs, w1)"
    by (cases "try_block i ?w") auto
  have on: "auto_refresh w1 = Some True"
    using try_block_auto_refresh [OF t] a by (simp add: refresh_active_def)
  have fail: "evs = [] \<and> r = Inl e \<and> sent_alerts w1 = sent_alerts w \<and> cache w1 = cache w"
    if f: "fst (run_query (data_source i) query ?w) = Inl e" for e
  proof -
    obtain wq where q: "run_query (data_source i) query ?w = (Inl e, wq)"
      using f by (cases "run_query (data_source i) query ?w") auto
    from try_block_fetch_raises [OF q] t run_query_frame [OF q] run_query_raises_frame [OF q]
    show ?thesis by (simp add: session_update_frame)
  qed
  show ?thesis
    using on fail by (auto simp add: script_active [OF a t] refresh_active_next)
qed

theorem fetch_failure_cycle_witness:
  "refresh_active (press (ExecuteRaises ''timeout'')) fresh_world \<and>
   (case script (press (ExecuteRaises ''timeout'')) fresh_world of
      (evs, w1) \<Rightarrow>
        (\<exists>shown. evs = shown @ [Sleep 10, Rerun]) \<and>
        (\<forall>j. \<not> button j \<longrightarrow> refresh_active j w1) \<and>
        (\<forall>e. fst (run_query (data_source (press (ExecuteRaises ''timeout''))) query
                 (session_update (press (ExecuteRaises ''timeout'')) fresh_world)) = Inl e \<longrightarrow>
           evs = [Title ''Data Anomaly Detection'', Write ''Auto-refresh is ON'',
                  display_time (press (ExecuteRaises ''timeout'')),
                  Error (''Error running query: '' @ exn_str e), Sleep 10, Rerun] \<and>
           sent_alerts w1 = sent_alerts fresh_world \<and> cache w1 = cache fresh_world)) \<and>
   fst (run_query (data_source (press (ExecuteRaises ''timeout''))) query
          (session_update (press (ExecuteRaises ''timeout'')) fresh_world)) =
     Inl (DatabaseError ''timeout'')"
proof -
  have h: "refresh_active (press (ExecuteRaises ''timeout'')) fresh_world"
    by (simp add: refresh_active_def session_update_def toggle_def init_session_def press_def
        fresh_world_def)
  have f: "fst (run_query (data_source (press (ExecuteRaises ''timeout''))) query
          (session_update (press (ExecuteRaises ''timeout'')) fresh_world)) =
     Inl (DatabaseError ''timeout'')"
    by (simp add: eval_defs)
  show ?thesis
    by (intro conjI h f fetch_failure_cycle [OF h])
qed

lemma idle_session:
  "\<not> refresh_active i w \<Longrightarrow> session_update i w = w\<lparr>auto_refresh := Some False\<rparr>"
  by (cases "auto_refresh w")
    (auto simp add: refresh_active_def session_update_def toggle_def init_session_def)

text \<open>
  C9. A run that reads the state as idle displays the title, the status line and the line
  "Current time: " followed by the clock's time, and nothing else, and it ends there: no
  sleep, no rerun. The world after the run is
  the world before it with the session state idle: no connection was opened or closed, no
  query was sent, and the cache and the ledger are as they were.
\<close>

theorem idle_run:
  "\<not> refresh_active i w \<Longrightarrow>
   script i w =
     ([Title ''Data Anomaly Detection'', Write ''Auto-refresh is OFF'',
       Write (''Current time: '' @ now i)],
      w\<lparr>auto_refresh := Some False\<rparr>)"
  by (simp add: script_idle idle_session display_time_def)

theorem idle_run_witness:
  "\<not> refresh_active (tick (Returns (employees [Some 7]))) fresh_world \<and>
   script (tick (Returns (employees [Some 7]))) fresh_world =
     ([Title ''Data Anomaly Detection'', Write ''Auto-refresh is OFF'',
       Write ''Current time: 2024-01-01 00:00:10''],
      fresh_world\<lparr>auto_refresh := Some False\<rparr>)"
proof -
  have h: "\<not> refresh_active (tick (Returns (employees [Some 7]))) fresh_world"
    by (simp add: refresh_active_def session_update_def toggle_def init_session_def tick_def
        fresh_world_def)
  have n: "now (tick (Returns (employees [Some 7]))) = ''2024-01-01 00:00:10''"
    by (simp add: tick_def)
  from idle_run [OF h] have
    "script (tick (Returns (employees [Some 7]))) fresh_world =
     ([Title ''Data Anomaly Detection'', Write ''Auto-refresh is OFF'',
       Write ''Current time: 2024-01-01 00:00:10''],
      fresh_world\<lparr>auto_refresh := Some False\<rparr>)"
    unfolding n by simp
  with h show ?thesis by (rule conjI)
qed

subsection \<open>The anomaly check\<close>

lemma set_map_filter_id: "set (List.map_filter (\<lambda>v. v) vs) = {v. Some v \<in> set vs}"
  by (force simp add: List.map_filter_def image_iff)

lemma fold_max_gt:
  "t < fold max xs x \<longleftrightarrow> (t < x \<or> (\<exists>v \<in> set xs. t < v))" for t :: real
  by (induction xs arbitrary: x) (auto simp add: less_max_iff_disj)

lemma nan_gt_nan_max: "nan_gt (nan_max vs) t \<longleftrightarrow> (\<exists>v. Some v \<in> set vs \<and> t < v)"
proof (cases "List.map_filter (\<lambda>v. v) vs")
  case Nil
  have "{v. Some v \<in> set vs} = {}"
    unfolding set_map_filter_id [symmetric] Nil by simp
  then have "\<not> (\<exists>v. Some v \<in> set vs \<and> t < v)" by blast
  with Nil show ?thesis by (simp add: nan_max_def)
next
  case (Cons x xs)
  have s: "{v. Some v \<in> set vs} = set (x # xs)"
    unfolding set_map_filter_id [symmetric] Cons by simp
  have "nan_gt (nan_max vs) t \<longleftrightarrow> (\<exists>v \<in> set (x # xs). t < v)"
    using Cons by (simp add: nan_max_def fold_max_gt)
  also have "\<dots> \<longleftrightarrow> (\<exists>v \<in> {v. Some v \<in> set vs}. t < v)"
    unfolding s ..
  finally show ?thesis by blast
qed

lemma set_series_numbers:
  "set (series_numbers s) = {v. \<exists>vs. s = NumberSeries vs \<and> Some v \<in> set vs}"
  by (cases s) (simp_all add: set_map_filter_id)

lemma set_select_dtypes_number:
  "set (select_dtypes_number df) = {(n, vs). (n, NumberSeries vs) \<in> set (columns df)}"
proof -
  have "number_column c = Some (n, vs) \<longleftrightarrow> c = (n, NumberSeries vs)" for c n vs
    by (cases c rule: number_column.cases) auto
  then show ?thesis
    by (force simp add: select_dtypes_number_def List.map_filter_def image_iff)
qed

lemma nan_gt_Some: "(\<exists>v. x = Some v \<and> t < v) \<longleftrightarrow> nan_gt x t"
  by (cases x) simp_all

lemma exceeds_iff:
  "nan_gt (nan_max (df_max (select_dtypes_number df))) t \<longleftrightarrow>
   (\<exists>v \<in> set (numeric_values df). t < v)"
proof -
  have "nan_gt (nan_max (df_max (select_dtypes_number df))) t \<longleftrightarrow>
        (\<exists>c \<in> set (select_dtypes_number df). \<exists>v. nan_max (snd c) = Some v \<and> t < v)"
    by (force simp add: nan_gt_nan_max df_max_def image_iff)
  also have "\<dots> \<longleftrightarrow> (\<exists>c \<in> set (select_dtypes_number df). nan_gt (nan_max (snd c)) t)"
    by (simp only: nan_gt_Some)
  also have "\<dots> \<longleftrightarrow>
        (\<exists>n vs. (n, NumberSeries vs) \<in> set (columns df) \<and> (\<exists>v. Some v \<in> set vs \<and> t < v))"
    by (auto simp add: set_select_dtypes_number nan_gt_nan_max)
  also have "\<dots> \<longleftrightarrow> (\<exists>v \<in> set (numeric_values df). t < v)"
    by (force simp add: numeric_values_def set_series_numbers)
  finally show ?thesis .
qed

lemma exceeds_Max:
  "(\<exists>v \<in> set vs. t < v) \<longleftrightarrow> (vs \<noteq> [] \<and> t < Max (set vs))" for vs :: "real list"
  by (cases "vs = []") (simp_all add: Max_gr_iff)

lemma numeric_value_not_empty:
  assumes "wf_dataframe df" and "v \<in> set (numeric_values df)"
  shows "\<not> df_empty df"
proof -
  from assms(2) obtain n vs where c: "(n, NumberSeries vs) \<in> set (columns df)" and "Some v \<in> set vs"
    by (auto simp add: numeric_values_def set_series_numbers)
  then have "0 < length vs" by (cases vs) auto
  moreover from assms(1) c have "length vs = index_len df"
    by (auto simp add: wf_dataframe_def list_all_iff)
  ultimately show ?thesis using c by (auto simp add: df_empty_def)
qed

lemma send_alert_shows:
  "send_alert c m w = (Inr u, evs, w1) \<Longrightarrow> evs \<noteq> [] \<and> evs \<noteq> [Write x]"
  by (auto simp add: send_alert_def split: prod.splits sum.splits if_splits)

lemma anomaly_check_cases:
  "anomaly_check c df w =
     (if \<not> df_empty df \<and> (\<exists>v \<in> set (numeric_values df). 6 < v) then send_alert c alert_text w
      else (Inr (), if df_empty df then [] else [Write ''No anomalies detected.''], w))"
  by (simp add: anomaly_check_def exceeds_iff)

lemma send_alert_not_quiet:
  "send_alert c m w \<noteq> (Inr (), if b then [] else [Write x], w)"
proof
  assume "send_alert c m w = (Inr (), if b then [] else [Write x], w)"
  from send_alert_shows [OF this, of x] show False by (cases b) simp_all
qed

text \<open>
  C4, as the code has it. On a table whose columns have one value per row, the anomaly check
  calls \<^verbatim>\<open>send_alert\<close> with the fixed text exactly when the columns of a numeric dtype hold
  a value and the maximum of their values is greater than 6; columns of dtype object take no
  part, whatever they hold. The column [1, 2, 7] makes it call
  \<^verbatim>\<open>send_alert\<close>; the column [1, 2, 6] makes it write "No anomalies detected."; a table
  with no column of a numeric dtype, and a table with no rows, never make it call
  \<^verbatim>\<open>send_alert\<close>: the world is returned as it was.
\<close>

theorem anomaly_check_threshold:
  "(wf_dataframe df \<longrightarrow>
      (anomaly_check c df w = send_alert c alert_text w) =
      (numeric_values df \<noteq> [] \<and> 6 < Max (set (numeric_values df)))) \<and>
   anomaly_check c (employees [Some 1, Some 2, Some 7]) w = send_alert c alert_text w \<and>
   anomaly_check c (employees [Some 1, Some 2, Some 6]) w =
     (Inr (), [Write ''No anomalies detected.''], w) \<and>
   (select_dtypes_number df = [] \<longrightarrow>
      anomaly_check c df w =
        (Inr (), if df_empty df then [] else [Write ''No anomalies detected.''], w)) \<and>
   (index_len df = 0 \<longrightarrow> anomaly_check c df w = (Inr (), [], w))"
proof (intro conjI impI)
  assume wf: "wf_dataframe df"
  show "(anomaly_check c df w = send_alert c alert_text w) =
      (numeric_values df \<noteq> [] \<and> 6 < Max (set (numeric_values df)))"
  proof (cases "\<exists>v \<in> set (numeric_values df). 6 < v")
    case True
    then have "\<not> df_empty df" using numeric_value_not_empty [OF wf] by blast
    with True show ?thesis
      by (simp add: anomaly_check_cases exceeds_Max [symmetric])
  next
    case False
    then have "anomaly_check c df w \<noteq> send_alert c alert_text w"
      using send_alert_not_quiet [of c alert_text w "df_empty df" "''No anomalies detected.''"]
      by (simp add: anomaly_check_cases)
    with False show ?thesis by (simp add: exceeds_Max [symmetric])
  qed
next
  show "anomaly_check c (employees [Some 1, Some 2, Some 7]) w = send_alert c alert_text w"
    by (simp add: anomaly_check_def employees_def df_empty_def select_dtypes_number_def
        df_max_def nan_max_def List.map_filter_def)
next
  show "anomaly_check c (employees [Some 1, Some 2, Some 6]) w =
     (Inr (), [Write ''No anomalies detected.''], w)"
    by (simp add: anomaly_check_def employees_def df_empty_def select_dtypes_number_def
        df_max_def nan_max_def List.map_filter_def)
next
  assume "select_dtypes_number df = []"
  then show "anomaly_check c df w =
        (Inr (), if df_empty df then [] else [Write ''No anomalies detected.''], w)"
    by (simp add: anomaly_check_def df_max_def nan_max_def List.map_filter_def)
next
  assume "index_len df = 0"
  then show "anomaly_check c df w = (Inr (), [], w)"
    by (simp add: anomaly_check_def df_empty_def)
qed

theorem anomaly_check_threshold_witness:
  "wf_dataframe (employees [Some 1, Some 2, Some 7]) \<and>
   ((anomaly_check None (employees [Some 1, Some 2, Some 7]) fresh_world =
       send_alert None alert_text fresh_world) =
    (numeric_values (employees [Some 1, Some 2, Some 7]) \<noteq> [] \<and>
     6 < Max (set (numeric_values (employees [Some 1, Some 2, Some 7]))))) \<and>
   6 < Max (set (numeric_values (employees [Some 1, Some 2, Some 7]))) \<and>
   select_dtypes_number names_only = [] \<and>
   anomaly_check None names_only fresh_world =
     (Inr (), if df_empty names_only then [] else [Write ''No anomalies detected.''], fresh_world) \<and>
   \<not> df_empty names_only \<and>
   index_len (employees []) = 0 \<and>
   anomaly_check None (employees []) fresh_world = (Inr (), [], fresh_world)"
proof -
  have wf: "wf_dataframe (employees [Some 1, Some 2, Some 7])"
    by (simp add: wf_dataframe_def employees_def)
  have mx: "6 < Max (set (numeric_values (employees [Some 1, Some 2, Some 7])))"
    by (simp add: numeric_values_def employees_def List.map_filter_def)
  have no: "select_dtypes_number names_only = []"
    by (simp add: names_only_def select_dtypes_number_def List.map_filter_def)
  have ne: "\<not> df_empty names_only"
    by (simp add: names_only_def df_empty_def)
  have z: "index_len (employees []) = 0"
    by (simp add: employees_def)
  note t1 = anomaly_check_threshold [of "employees [Some 1, Some 2, Some 7]" None fresh_world]
  note t2 = anomaly_check_threshold [of names_only None fresh_world]
  note t3 = anomaly_check_threshold [of "employees []" None fresh_world]
  from t1 wf have a: "(anomaly_check None (employees [Some 1, Some 2, Some 7]) fresh_world =
       send_alert None alert_text fresh_world) =
    (numeric_values (employees [Some 1, Some 2, Some 7]) \<noteq> [] \<and>
     6 < Max (set (numeric_values (employees [Some 1, Some 2, Some 7]))))" by blast
  from t2 no have b: "anomaly_check None names_only fresh_world =
     (Inr (), if df_empty names_only then [] else [Write ''No anomalies detected.''], fresh_world)"
    by blast
  from t3 z have c: "anomaly_check None (employees []) fresh_world = (Inr (), [], fresh_world)"
    by blast
  show ?thesis by (intro conjI wf a mx no b ne z c)
qed

text \<open>
  C4, as stated, fails: the fetched row (1, Decimal 7.5) gives a table whose second column
  holds the number 7.5, greater than 6, as an object; the column is not of a numeric dtype,
  the maximum is taken over the first column alone, and the check writes
  "No anomalies detected.".
\<close>

theorem anomaly_check_decimal_counterexample:
  "wf_dataframe
     \<lparr>index_len = 1,
      columns = [(''EMPLOYEE_ID'', NumberSeries [Some 1]),
                 (''SALARY'', ObjectSeries [Some (DecimalObj 7.5)])]\<rparr> \<and>
   anomaly_check None
     \<lparr>index_len = 1,
      columns = [(''EMPLOYEE_ID'', NumberSeries [Some 1]),
                 (''SALARY'', ObjectSeries [Some (DecimalObj 7.5)])]\<rparr> fresh_world =
     (Inr (), [Write ''No anomalies detected.''], fresh_world)"
  by (simp add: wf_dataframe_def anomaly_check_def df_empty_def select_dtypes_number_def
      df_max_def nan_max_def List.map_filter_def)

subsection \<open>Validation\<close>

lemma resolve_column_None:
  "resolve_column c cols = None \<longleftrightarrow> casefold c \<notin> casefold ` fst ` set cols"
proof (induction cols)
  case Nil
  show ?case by simp
next
  case (Cons a cols)
  obtain n s where a: "a = (n, s)" by (cases a)
  show ?case unfolding a using Cons.IH by auto
qed

lemma validate_expectation_missing:
  "casefold c \<notin> casefold ` fst ` set (columns df) \<Longrightarrow>
   validate_expectation df (ExpectColumnValuesToNotBeNull c) =
     \<lparr>expectation_config = ExpectColumnValuesToNotBeNull c, expectation_success = False,
      raised_exception = True\<rparr>"
proof -
  assume "casefold c \<notin> casefold ` fst ` set (columns df)"
  then have "resolve_column c (columns df) = None" by (simp add: resolve_column_None)
  then show ?thesis by (simp add: nonnull_metrics_def)
qed

lemma validate_expectation_no_rows:
  "index_len df = 0 \<Longrightarrow> column e \<in> fst ` set (columns df) \<Longrightarrow>
   expectation_success (validate_expectation df e)"
proof (cases e)
  case (ExpectColumnValuesToNotBeNull c)
  assume z: "index_len df = 0" and "column e \<in> fst ` set (columns df)"
  then have "casefold c \<in> casefold ` fst ` set (columns df)"
    using ExpectColumnValuesToNotBeNull by simp
  then have "resolve_column c (columns df) \<noteq> None" by (simp add: resolve_column_None)
  then obtain s where "resolve_column c (columns df) = Some s" by blast
  with z ExpectColumnValuesToNotBeNull show ?thesis by (simp add: nonnull_metrics_def)
qed

text \<open>
  C5, as the code has it. On a table with no rows, validation succeeds for every suite of
  not-null expectations whose columns are all columns of the table; \<^verbatim>\<open>validate_data\<close>,
  whose suite is the one expectation on \<^verbatim>\<open>EMPLOYEE_ID\<close>, returns success on every table
  with no rows that has that column.
\<close>

theorem validate_zero_rows:
  "index_len df = 0 \<Longrightarrow>
   ((\<forall>e \<in> set suite. column e \<in> fst ` set (columns df)) \<longrightarrow>
      success (batch_validate df suite)) \<and>
   (''EMPLOYEE_ID'' \<in> fst ` set (columns df) \<longrightarrow>
      (\<exists>r. validate_data df = Inr r \<and> success r))"
proof -
  assume z: "index_len df = 0"
  have "success (batch_validate df suite)"
    if "\<forall>e \<in> set suite. column e \<in> fst ` set (columns df)" for suite
    using that validate_expectation_no_rows [OF z]
    by (simp add: batch_validate_def list_all_iff del: validate_expectation.simps)
  from this [of suite] this [of "[ExpectColumnValuesToNotBeNull ''EMPLOYEE_ID'']"]
  show ?thesis by (simp add: validate_data_def)
qed

theorem validate_zero_rows_witness:
  "index_len (no_rows ''EMPLOYEE_ID'') = 0 \<and>
   ''EMPLOYEE_ID'' \<in> fst ` set (columns (no_rows ''EMPLOYEE_ID'')) \<and>
   (\<exists>r. validate_data (no_rows ''EMPLOYEE_ID'') = Inr r \<and> success r)"
proof -
  have z: "index_len (no_rows ''EMPLOYEE_ID'') = 0" by (simp add: no_rows_def)
  have c: "''EMPLOYEE_ID'' \<in> fst ` set (columns (no_rows ''EMPLOYEE_ID''))"
    by (simp add: no_rows_def)
  from validate_zero_rows [OF z, of "[]"] c
  have "\<exists>r. validate_data (no_rows ''EMPLOYEE_ID'') = Inr r \<and> success r" by blast
  with z c show ?thesis by blast
qed

text \<open>
  C5, as stated, fails: a table with no rows and without the column \<^verbatim>\<open>EMPLOYEE_ID\<close> does
  not validate.
\<close>

theorem validate_zero_rows_counterexample:
  "index_len (no_rows ''NAME'') = 0 \<and> wf_dataframe (no_rows ''NAME'') \<and>
   validate_data (no_rows ''NAME'') =
     Inr \<lparr>success = False,
          results = [\<lparr>expectation_config = ExpectColumnValuesToNotBeNull ''EMPLOYEE_ID'',
                      expectation_success = False, raised_exception = True\<rparr>]\<rparr>"
  by (simp add: no_rows_def wf_dataframe_def validate_data_def batch_validate_def
      nonnull_metrics_def casefold_def casefold_char_def)

text \<open>
  C6, as the code has it. A not-null expectation on a column that the table does not have
  under any letter case (no column's name equals the expectation's with the case folded) is
  reported as a failed expectation with the exception recorded, and the suite's success is
  False; \<^verbatim>\<open>validate_data\<close> on a table with no column named \<^verbatim>\<open>EMPLOYEE_ID\<close> in any
  letter case returns such a report and does not raise.
\<close>

theorem validate_missing_column:
  "casefold c \<notin> casefold ` fst ` set (columns df) \<Longrightarrow>
   (ExpectColumnValuesToNotBeNull c \<in> set suite \<longrightarrow>
      \<not> success (batch_validate df suite) \<and>
      \<lparr>expectation_config = ExpectColumnValuesToNotBeNull c, expectation_success = False,
       raised_exception = True\<rparr> \<in> set (results (batch_validate df suite))) \<and>
   (c = ''EMPLOYEE_ID'' \<longrightarrow> (\<exists>r. validate_data df = Inr r \<and> \<not> success r))"
proof -
  assume m: "casefold c \<notin> casefold ` fst ` set (columns df)"
  note v = validate_expectation_missing [OF m]
  have "\<not> success (batch_validate df suite) \<and>
      \<lparr>expectation_config = ExpectColumnValuesToNotBeNull c, expectation_success = False,
       raised_exception = True\<rparr> \<in> set (results (batch_validate df suite))"
    if "ExpectColumnValuesToNotBeNull c \<in> set suite"
  proof -
    let ?r = "\<lparr>expectation_config = ExpectColumnValuesToNotBeNull c,
               expectation_success = False, raised_exception = True\<rparr>"
    from that have "validate_expectation df (ExpectColumnValuesToNotBeNull c)
        \<in> set (map (validate_expectation df) suite)"
      by (simp del: validate_expectation.simps)
    then have r: "?r \<in> set (map (validate_expectation df) suite)" unfolding v .
    moreover have "\<not> expectation_success ?r" by simp
    ultimately have "\<not> list_all expectation_success (map (validate_expectation df) suite)"
      unfolding list_all_iff by blast
    with r show ?thesis by (simp add: batch_validate_def del: validate_expectation.simps)
  qed
  moreover have "\<exists>r. validate_data df = Inr r \<and> \<not> success r" if "c = ''EMPLOYEE_ID''"
    using v that by (simp add: validate_data_def batch_validate_def)
  ultimately show ?thesis by blast
qed

theorem validate_missing_column_witness:
  "casefold ''EMPLOYEE_ID'' \<notin> casefold ` fst ` set (columns names_only) \<and>
   ExpectColumnValuesToNotBeNull ''EMPLOYEE_ID'' \<in> set [ExpectColumnValuesToNotBeNull ''EMPLOYEE_ID''] \<and>
   \<not> success (batch_validate names_only [ExpectColumnValuesToNotBeNull ''EMPLOYEE_ID'']) \<and>
   \<lparr>expectation_config = ExpectColumnValuesToNotBeNull ''EMPLOYEE_ID'', expectation_success = False,
    raised_exception = True\<rparr>
     \<in> set (results (batch_validate names_only [ExpectColumnValuesToNotBeNull ''EMPLOYEE_ID''])) \<and>
   (\<exists>r. validate_data names_only = Inr r \<and> \<not> success r)"
proof -
  have m: "casefold ''EMPLOYEE_ID'' \<notin> casefold ` fst ` set (columns names_only)"
    by (simp add: names_only_def casefold_def casefold_char_def)
  have s: "ExpectColumnValuesToNotBeNull ''EMPLOYEE_ID'' \<in> set [ExpectColumnValuesToNotBeNull ''EMPLOYEE_ID'']"
    by simp
  from validate_missing_column [OF m, of "[ExpectColumnValuesToNotBeNull ''EMPLOYEE_ID'']"] m s
  show ?thesis by blast
qed

text \<open>
  C6, as stated, fails: a table whose only column is named \<^verbatim>\<open>employee_id\<close> has no column
  \<^verbatim>\<open>EMPLOYEE_ID\<close>, yet the expectation on \<^verbatim>\<open>EMPLOYEE_ID\<close> is evaluated on that column
  and validation succeeds.
\<close>

theorem validate_missing_column_counterexample:
  "''EMPLOYEE_ID'' \<notin> fst ` set (columns \<lparr>index_len = 1, columns = [(''employee_id'', NumberSeries [Some 1])]\<rparr>) \<and>
   validate_data \<lparr>index_len = 1, columns = [(''employee_id'', NumberSeries [Some 1])]\<rparr> =
     Inr \<lparr>success = True,
          results = [\<lparr>expectation_config = ExpectColumnValuesToNotBeNull ''EMPLOYEE_ID'',
                      expectation_success = True, raised_exception = False\<rparr>]\<rparr>"
  by (simp add: validate_data_def batch_validate_def nonnull_metrics_def casefold_def
      casefold_char_def)

subsection \<open>Releasing the connection\<close>

text \<open>
  Whatever the data source answers, a raise of \<^verbatim>\<open>conn.cursor()\<close> apart, the body of
  \<^verbatim>\<open>run_query\<close> closes as many connections as it opens.
\<close>

lemma run_query_body_closes:
  "(\<forall>m. src \<noteq> CursorRaises m) \<Longrightarrow> run_query_body src q w = (r, w1) \<Longrightarrow>
   conns_opened w1 - conns_opened w = conns_closed w1 - conns_closed w"
  by (cases src)
    (auto simp add: run_query_body_def get_snowflake_connection_def finally_close_def
      conn_close_def)

text \<open>
  C7 at the input where it fails: the connect succeeds and \<^verbatim>\<open>conn.cursor()\<close> raises. The
  call ends with UnboundLocalError for the name \<^verbatim>\<open>cursor\<close>, one connection was opened and
  none was closed.
\<close>

theorem run_query_cursor_failure_leaks:
  "fst (run_query (CursorRaises ''Connection is closed'') query fresh_world)
     = Inl (UnboundLocalError ''cursor'') \<and>
   conns_opened (snd (run_query (CursorRaises ''Connection is closed'') query fresh_world)) = 1 \<and>
   conns_closed (snd (run_query (CursorRaises ''Connection is closed'') query fresh_world)) = 0 \<and>
   open_connections (snd (run_query (CursorRaises ''Connection is closed'') query fresh_world)) = 1"
  by (simp add: run_query_def run_query_body_def get_snowflake_connection_def finally_close_def
      open_connections_def fresh_world_def)

subsection \<open>The alert ledger, two callers\<close>

text \<open>One caller stepping alone does what \<^verbatim>\<open>send_alert\<close> does.\<close>

lemma send_alert_steps:
  "interleave m [0, 0, 0, 0, 0] ([(AtConnect, [])], w) =
     (case send_alert None m w of (r, evs, w1) \<Rightarrow> ([(Finished, evs)], w1))"
  by (simp add: send_alert_def get_snowflake_connection_def is_alert_sent_def log_alert_def
      insert_alert_def)

text \<open>
  Under every schedule the unique column keeps the ledger free of duplicates.
\<close>

lemma log_alert_distinct:
  "distinct table \<Longrightarrow> log_alert table m = Inr table' \<Longrightarrow> distinct table'"
  by (auto simp add: log_alert_def insert_alert_def split: if_splits)

lemma send_alert_step_distinct:
  "distinct (sent_alerts w) \<Longrightarrow> send_alert_step c m p w = (p', evs, w1) \<Longrightarrow>
   distinct (sent_alerts w1)"
  by (cases p)
    (auto simp add: get_snowflake_connection_def conn_close_def
      dest: log_alert_distinct split: option.splits if_splits sum.splits)

lemma interleave_distinct:
  "distinct (sent_alerts w) \<Longrightarrow> interleave m ks (callers, w) = (callers', w') \<Longrightarrow>
   distinct (sent_alerts w')"
proof (induction ks arbitrary: callers w)
  case Nil
  then show ?case by simp
next
  case (Cons k ks)
  show ?case
  proof (cases "k < length callers")
    case False
    with Cons.prems(2) have "interleave m ks (callers, w) = (callers', w')" by simp
    from Cons.IH [OF Cons.prems(1) this] show ?thesis .
  next
    case True
    obtain p evs w1 where s: "send_alert_step None m (fst (callers ! k)) w = (p, evs, w1)"
      by (cases "send_alert_step None m (fst (callers ! k)) w") auto
    from send_alert_step_distinct [OF Cons.prems(1) s] have d: "distinct (sent_alerts w1)" .
    from True s Cons.prems(2)
    have "interleave m ks (callers[k := (p, snd (callers ! k) @ evs)], w1) = (callers', w')"
      by simp
    from Cons.IH [OF d this] show ?thesis .
  qed
qed

text \<open>
  C3 at the input where it fails: two callers with the same message on an empty ledger, taking
  turns statement by statement. Both find no record, the first insert is committed, the second
  is rolled back inside \<^verbatim>\<open>log_alert\<close>, and both callers display the warning; the ledger
  holds one record.
\<close>

theorem send_alert_race:
  "fst (interleave alert_text [0, 1, 0, 1, 0, 1, 0, 1, 0, 1]
          ([(AtConnect, []), (AtConnect, [])], fresh_world))
     = [(Finished, [Warning (''Alert: '' @ alert_text)]),
        (Finished, [Warning (''Alert: '' @ alert_text)])] \<and>
   sent_alerts (snd (interleave alert_text [0, 1, 0, 1, 0, 1, 0, 1, 0, 1]
          ([(AtConnect, []), (AtConnect, [])], fresh_world)))
     = [alert_text]"
  by (simp add: get_snowflake_connection_def is_alert_sent_def log_alert_def
      insert_alert_def fresh_world_def conn_close_def)

subsection \<open>The ledger over the life of the system\<close>

lemma send_alert_ledger:
  assumes "ledger_ok (sent_alerts w)" and "send_alert c alert_text w = (r, evs, w1)"
  shows "ledger_ok (sent_alerts w1) \<and>
         length (filter is_warning evs) + length (sent_alerts w) = length (sent_alerts w1)"
proof (cases c)
  case (Some m)
  with assms show ?thesis by (simp add: send_alert_def get_snowflake_connection_def)
next
  case None
  show ?thesis
  proof (cases "alert_text \<in> set (sent_alerts w)")
    case True
    from send_alert_sent [OF True] assms None show ?thesis by (auto simp add: conn_close_def)
  next
    case False
    with assms(1) have "sent_alerts w = []" by (auto simp add: ledger_ok_def)
    with send_alert_unsent [OF False] assms None show ?thesis
      by (auto simp add: conn_close_def ledger_ok_def)
  qed
qed

lemma anomaly_check_ledger:
  assumes "ledger_ok (sent_alerts w)" and "anomaly_check c df w = (r, evs, w1)"
  shows "ledger_ok (sent_alerts w1) \<and>
         length (filter is_warning evs) + length (sent_alerts w) = length (sent_alerts w1)"
proof (cases "\<not> df_empty df \<and> nan_gt (nan_max (df_max (select_dtypes_number df))) 6")
  case True
  with assms(2) have "send_alert c alert_text w = (r, evs, w1)" by (simp add: anomaly_check_def)
  from send_alert_ledger [OF assms(1) this] show ?thesis .
next
  case False
  with assms show ?thesis by (auto simp add: anomaly_check_def split: if_splits)
qed

lemma try_block_ledger:
  assumes "ledger_ok (sent_alerts w)" and "try_block i w = (r, evs, w1)"
  shows "ledger_ok (sent_alerts w1) \<and>
         length (filter is_warning evs) + length (sent_alerts w) = length (sent_alerts w1)"
proof -
  obtain rq wq where q: "run_query (data_source i) query w = (rq, wq)"
    by (cases "run_query (data_source i) query w") auto
  note f = run_query_frame [OF q]
  show ?thesis
  proof (cases rq)
    case (Inl e)
    with q assms f show ?thesis by (simp add: try_block_def)
  next
    case (Inr df)
    obtain ra evsa wa where a: "anomaly_check (alert_connect i) df wq = (ra, evsa, wa)"
      by (cases "anomaly_check (alert_connect i) df wq") auto
    from assms(1) f have "ledger_ok (sent_alerts wq)" by simp
    from anomaly_check_ledger [OF this a] Inr q assms(2) a f show ?thesis
      by (auto simp add: try_block_def validate_data_def)
  qed
qed

lemma script_ledger:
  assumes "ledger_ok (sent_alerts w)" and "script i w = (evs, w1)"
  shows "ledger_ok (sent_alerts w1) \<and>
         length (filter is_warning evs) + length (sent_alerts w) = length (sent_alerts w1)"
proof (cases "refresh_active i w")
  case False
  from script_idle [OF False] assms show ?thesis
    by (auto simp add: session_update_frame display_time_def)
next
  case True
  let ?w = "session_update i w"
  obtain r evs' w' where t: "try_block i ?w = (r, evs', w')"
    by (cases "try_block i ?w") auto
  have "ledger_ok (sent_alerts ?w)" using assms(1) by (simp add: session_update_frame)
  from try_block_ledger [OF this t] script_active [OF True t] assms(2) show ?thesis
    by (cases r) (auto simp add: session_update_frame display_time_def)
qed

lemma refresh_loop_ledger:
  "ledger_ok (sent_alerts w) \<Longrightarrow> refresh_loop rest w = (shown, w') \<Longrightarrow>
   ledger_ok (sent_alerts w') \<and>
   length (filter is_warning (concat shown)) + length (sent_alerts w) = length (sent_alerts w')"
proof (induction rest arbitrary: w shown w')
  case Nil
  then show ?case by simp
next
  case (Cons i rest)
  obtain evs w1 where s: "script i w = (evs, w1)" by (cases "script i w") auto
  obtain more w2 where l: "refresh_loop rest w1 = (more, w2)"
    by (cases "refresh_loop rest w1") auto
  note a = script_ledger [OF Cons.prems(1) s]
  from a have "ledger_ok (sent_alerts w1)" by simp
  from Cons.IH [OF this l] a Cons.prems(2) s l show ?case by auto
qed

lemma anomaly_already_sent:
  assumes "sent_alerts w = [alert_text]"
    and "\<not> df_empty df" and "nan_gt (nan_max (df_max (select_dtypes_number df))) 6"
  shows "anomaly_check None df w =
           (Inr (), [Info ''Alert already sent for this issue.''],
            conn_close (w\<lparr>conns_opened := conns_opened w + 1\<rparr>))"
proof -
  have "alert_text \<in> set (sent_alerts w)" using assms(1) by simp
  from send_alert_sent [OF this] assms(2,3) show ?thesis by (simp add: anomaly_check_def)
qed

text \<open>
  One session running the script again and again, from an empty ledger: after any number of
  runs on any inputs the ledger holds at most one record, which is the fixed alert text, and
  the runs together displayed as many warnings as the ledger holds records. Once the record
  is there, an anomaly, whatever table shows it, is answered with the notice
  "Alert already sent for this issue." when the connect succeeds.
\<close>

lemma sequential_runs_one_alert:
  "sent_alerts w = [] \<Longrightarrow>
   (case refresh_loop rest w of
      (shown, w') \<Rightarrow>
        length (sent_alerts w') \<le> 1 \<and> set (sent_alerts w') \<subseteq> {alert_text} \<and>
        length (filter is_warning (concat shown)) = length (sent_alerts w') \<and>
        (\<forall>df. sent_alerts w' \<noteq> [] \<and> \<not> df_empty df \<and>
              nan_gt (nan_max (df_max (select_dtypes_number df))) 6 \<longrightarrow>
           anomaly_check None df w' =
             (Inr (), [Info ''Alert already sent for this issue.''],
              conn_close (w'\<lparr>conns_opened := conns_opened w' + 1\<rparr>))))"
proof -
  assume e: "sent_alerts w = []"
  obtain shown w' where l: "refresh_loop rest w = (shown, w')"
    by (cases "refresh_loop rest w") auto
  have "ledger_ok (sent_alerts w)" using e by (simp add: ledger_ok_def)
  from refresh_loop_ledger [OF this l] e
  have ok: "ledger_ok (sent_alerts w')"
    and n: "length (filter is_warning (concat shown)) = length (sent_alerts w')" by simp_all
  from ok have "sent_alerts w' = [] \<or> sent_alerts w' = [alert_text]" by (simp add: ledger_ok_def)
  then show ?thesis
    using l n anomaly_already_sent [of w'] by auto
qed

text \<open>
  C10 at the input where it fails: two sessions detect an anomaly and call
  \<^verbatim>\<open>send_alert\<close> with the fixed text. The first session connects and finds no record; the
  second then runs its whole call, records the alert and displays the warning; the first
  goes on, its insert is rolled back inside \<^verbatim>\<open>log_alert\<close>, and it displays the warning
  too. The ledger holds one record, and the later anomaly was reported as a new alert, not
  as already sent.
\<close>

theorem later_anomaly_alerts_again:
  "fst (interleave alert_text [0, 0, 1, 1, 1, 1, 1]
          ([(AtConnect, []), (AtConnect, [])], fresh_world))
     = [(AtLog, []), (Finished, [Warning (''Alert: '' @ alert_text)])] \<and>
   sent_alerts (snd (interleave alert_text [0, 0, 1, 1, 1, 1, 1]
          ([(AtConnect, []), (AtConnect, [])], fresh_world)))
     = [alert_text] \<and>
   fst (interleave alert_text [0, 0, 1, 1, 1, 1, 1, 0, 0, 0]
          ([(AtConnect, []), (AtConnect, [])], fresh_world))
     = [(Finished, [Warning (''Alert: '' @ alert_text)]),
        (Finished, [Warning (''Alert: '' @ alert_text)])] \<and>
   sent_alerts (snd (interleave alert_text [0, 0, 1, 1, 1, 1, 1, 0, 0, 0]
          ([(AtConnect, []), (AtConnect, [])], fresh_world)))
     = [alert_text]"
  by (simp add: get_snowflake_connection_def is_alert_sent_def log_alert_def
      insert_alert_def fresh_world_def conn_close_def)

end
